theory Spec2Isabelle
  imports Complex_Main
begin

section \<open>The instrument tester of \<^verbatim>\<open>Keysight_Agilent_RS232_test.py\<close>\<close>

text \<open>
  The theory embeds the worker class \<^verbatim>\<open>InstrumentTester\<close>: its queue of test names, the
  method \<^verbatim>\<open>run\<close>, the dispatcher \<^verbatim>\<open>_execute_test\<close>, the ten \<^verbatim>\<open>_test_*\<close> methods and
  \<^verbatim>\<open>_cleanup\<close>. A leading underscore is not an Isabelle identifier, so \<^verbatim>\<open>_execute_test\<close>
  is \<open>execute_test\<close>, and likewise for the others.

  The VISA library and the instrument behind it are the environment. Every call made on
  them is recorded, with its outcome, in a log carried by the state; the Qt signals the
  worker emits are recorded in a second list. A Python exception of class \<^verbatim>\<open>Exception\<close>
  is the left injection of a sum, carrying \<^verbatim>\<open>str(e)\<close>.
\<close>

subsection \<open>Data\<close>

text \<open>
  \<^verbatim>\<open>TestResult\<close> (lines 84-91). The fields \<^verbatim>\<open>execution_time\<close> and \<^verbatim>\<open>timestamp\<close> are
  readings of the wall clock that no branch of the program looks at; they are left out.
\<close>

record TestResult =
  test_name :: string
  passed :: bool
  message :: string

text \<open>The signals of lines 101-103; \<^verbatim>\<open>log_message\<close> is declared and never emitted.\<close>

datatype signal =
  Test_started string
  | Test_completed TestResult
  | Progress_updated int

text \<open>The calls the worker makes on PyVISA.\<close>

datatype call =
  ResourceManager
  | Open_resource string
  | Set_timeout nat
  | Query string
  | Write string
  | Close_instrument
  | Close_rm

type_synonym outcome = "string + string"

text \<open>
  The environment: \<open>respond\<close> answers a call in a state \<open>'d\<close> of the outside world with a
  fault (\<open>Inl\<close>, the text of the exception) or a reply (\<open>Inr\<close>; the text read back by a
  query, ignored for every other call) and the next state; \<open>clock\<close> is \<^verbatim>\<open>time.time()\<close> in
  seconds, as an exact rational.
\<close>

record 'd visa =
  respond :: "call \<Rightarrow> 'd \<Rightarrow> outcome \<times> 'd"
  clock :: "'d \<Rightarrow> rat"

text \<open>
  The object (lines 106-111): \<open>instrument\<close> and \<open>rm\<close> are \<open>False\<close> for \<^verbatim>\<open>None\<close> and \<open>True\<close>
  for a handle. The last three fields are the world: its state, the calls made so far with
  their outcomes, and the signals emitted so far, oldest first.
\<close>

record 'd tester =
  resource_address :: string
  instrument :: bool
  rm :: bool
  tests_to_run :: "string list"
  device :: 'd
  log :: "(call \<times> outcome) list"
  signals :: "signal list"

definition init :: "string \<Rightarrow> 'd \<Rightarrow> 'd tester" where
  "init address d =
     \<lparr>resource_address = address, instrument = False, rm = False, tests_to_run = [],
      device = d, log = [], signals = []\<rparr>"

definition add_test :: "string \<Rightarrow> 'd tester \<Rightarrow> 'd tester" where
  "add_test name t = t\<lparr>tests_to_run := tests_to_run t @ [name]\<rparr>"

subsection \<open>Statements that may raise\<close>

type_synonym ('d, 'a) action = "'d tester \<Rightarrow> (string + 'a) \<times> 'd tester"

definition act_return :: "'a \<Rightarrow> ('d, 'a) action" where
  "act_return x t = (Inr x, t)"

definition act_raise :: "string \<Rightarrow> ('d, 'a) action" where
  "act_raise e t = (Inl e, t)"

definition act_bind :: "('d, 'a) action \<Rightarrow> ('a \<Rightarrow> ('d, 'b) action) \<Rightarrow> ('d, 'b) action" where
  "act_bind m f t = (case m t of (Inl e, t') \<Rightarrow> (Inl e, t') | (Inr x, t') \<Rightarrow> f x t')"

text \<open>\<^verbatim>\<open>try: m  except Exception as e: h(e)\<close>, and the bare \<^verbatim>\<open>except:\<close> as well.\<close>

definition try_except :: "('d, 'a) action \<Rightarrow> (string \<Rightarrow> ('d, 'a) action) \<Rightarrow> ('d, 'a) action" where
  "try_except m h t = (case m t of (Inl e, t') \<Rightarrow> h e t' | (Inr x, t') \<Rightarrow> (Inr x, t'))"

text \<open>\<^verbatim>\<open>try: m  finally: c\<close>: \<open>c\<close> runs on both outcomes; a fault of \<open>c\<close> replaces that of \<open>m\<close>.\<close>

definition try_finally :: "('d, 'a) action \<Rightarrow> ('d, unit) action \<Rightarrow> ('d, 'a) action" where
  "try_finally m c t =
     (case m t of (r, t') \<Rightarrow> (case c t' of (Inl e, t'') \<Rightarrow> (Inl e, t'') | (Inr _, t'') \<Rightarrow> (r, t'')))"

definition emit :: "signal \<Rightarrow> ('d, unit) action" where
  "emit s t = (Inr (), t\<lparr>signals := signals t @ [s]\<rparr>)"

definition visa_call :: "'d visa \<Rightarrow> call \<Rightarrow> ('d, string) action" where
  "visa_call V c t =
     (case respond V c (device t) of
        (r, d') \<Rightarrow> (r, t\<lparr>device := d', log := log t @ [(c, r)]\<rparr>))"

definition attribute_error :: "string \<Rightarrow> string" where
  "attribute_error a =
     [CHR 0x27] @ ''NoneType'' @ [CHR 0x27] @ '' object has no attribute '' @ [CHR 0x27] @ a @ [CHR 0x27]"

text \<open>\<^verbatim>\<open>self.instrument.query(cmd)\<close>: an \<^verbatim>\<open>AttributeError\<close> while the field is \<^verbatim>\<open>None\<close>.\<close>

definition query :: "'d visa \<Rightarrow> string \<Rightarrow> ('d, string) action" where
  "query V cmd t =
     (if instrument t then visa_call V (Query cmd) t else act_raise (attribute_error ''query'') t)"

definition write_cmd :: "'d visa \<Rightarrow> string \<Rightarrow> ('d, string) action" where
  "write_cmd V cmd t =
     (if instrument t then visa_call V (Write cmd) t else act_raise (attribute_error ''write'') t)"

definition time_time :: "'d visa \<Rightarrow> 'd tester \<Rightarrow> rat" where
  "time_time V t = clock V (device t)"

subsection \<open>Strings\<close>

text \<open>
  A character is a code point below 256. \<^verbatim>\<open>str.isspace\<close> on these: TAB to CR, FS to US,
  the space, NEL and the no-break space.
\<close>

definition isspace :: "char \<Rightarrow> bool" where
  "isspace c =
     (c \<in> set [CHR 0x09, CHR 0x0A, CHR 0x0B, CHR 0x0C, CHR 0x0D, CHR 0x1C, CHR 0x1D,
               CHR 0x1E, CHR 0x1F, CHR 0x20, CHR 0x85, CHR 0xA0])"

definition strip :: "string \<Rightarrow> string" where
  "strip s = rev (dropWhile isspace (rev (dropWhile isspace s)))"

definition startswith :: "string \<Rightarrow> string \<Rightarrow> bool" where
  "startswith s p = (take (length p) s = p)"

definition endswith :: "string \<Rightarrow> string \<Rightarrow> bool" where
  "endswith s p = (length p \<le> length s \<and> drop (length s - length p) s = p)"

text \<open>\<^verbatim>\<open>p in s\<close> on strings.\<close>

fun contains :: "string \<Rightarrow> string \<Rightarrow> bool" where
  "contains [] p = (p = [])"
| "contains (c # cs) p = (startswith (c # cs) p \<or> contains cs p)"

text \<open>
  \<^verbatim>\<open>str.lower\<close> on the ASCII letters. The lowered strings are only searched for ASCII brand
  names, and no other code point below 256 lowers to an ASCII one.
\<close>

definition lower_char :: "char \<Rightarrow> char" where
  "lower_char c =
     (let n = (of_char c :: nat) in if 65 \<le> n \<and> n \<le> 90 then char_of (n + 32) else c)"

definition lower :: "string \<Rightarrow> string" where
  "lower s = map lower_char s"

text \<open>\<^verbatim>\<open>sep.join(xs)\<close>.\<close>

fun join :: "string \<Rightarrow> string list \<Rightarrow> string" where
  "join sep [] = []"
| "join sep [x] = x"
| "join sep (x # y # ys) = x @ sep @ join sep (y # ys)"

definition digit :: "nat \<Rightarrow> char" where
  "digit n = char_of (48 + n)"

fun str_nat :: "nat \<Rightarrow> string" where
  "str_nat n = (if n < 10 then [digit n] else str_nat (n div 10) @ [digit (n mod 10)])"

text \<open>
  Rounding to the nearest integer, ties to even, of a non-negative rational: what the
  format specifications do to the decimal expansion. The program formats binary floats;
  the model formats the exact quotient.
\<close>

definition round_half_even :: "rat \<Rightarrow> nat" where
  "round_half_even x =
     (let f = nat \<lfloor>x\<rfloor>; r = x - of_nat f in
      if r < 1 / 2 then f else if 1 / 2 < r then f + 1 else if even f then f else f + 1)"

text \<open>\<^verbatim>\<open>f"{x:.3f}"\<close>.\<close>

definition format_3f :: "rat \<Rightarrow> string" where
  "format_3f x =
     (let m = round_half_even (\<bar>x\<bar> * 1000); frac = str_nat (m mod 1000) in
      (if x < 0 then ''-'' else '''') @ str_nat (m div 1000) @ ''.''
        @ replicate (3 - length frac) (CHR ''0'') @ frac)"

text \<open>\<^verbatim>\<open>f"{x:.1%}"\<close> for a rate \<open>x \<ge> 0\<close>.\<close>

definition format_1pct :: "rat \<Rightarrow> string" where
  "format_1pct x =
     (let m = round_half_even (x * 1000) in
      str_nat (m div 10) @ ''.'' @ str_nat (m mod 10) @ ''%'')"

text \<open>\<^verbatim>\<open>a / b\<close> on integers: \<^verbatim>\<open>ZeroDivisionError\<close> when \<open>b = 0\<close>.\<close>

definition true_div :: "nat \<Rightarrow> nat \<Rightarrow> ('d, rat) action" where
  "true_div a b = (if b = 0 then act_raise ''division by zero'' else act_return (of_nat a / of_nat b))"

subsection \<open>The ten tests\<close>

definition failed :: "string \<Rightarrow> string \<Rightarrow> string \<Rightarrow> ('d, TestResult) action" where
  "failed name prefix e = act_return \<lparr>test_name = name, passed = False, message = prefix @ e\<rparr>"

text \<open>Lines 199-222.\<close>

definition test_connection :: "'d visa \<Rightarrow> ('d, TestResult) action" where
  "test_connection V =
     try_except
       (act_bind (query V ''*IDN?'') (\<lambda>response.
          let passed = (length (strip response) > 0);
              message = (if passed
                         then ''Connected successfully. Response: '' @ take 50 response @ ''...''
                         else ''No response'')
          in act_return \<lparr>test_name = ''Connection Test'', passed = passed, message = message\<rparr>))
       (failed ''Connection Test'' ''Connection failed: '')"

text \<open>Lines 224-252.\<close>

definition test_identification :: "'d visa \<Rightarrow> ('d, TestResult) action" where
  "test_identification V =
     try_except
       (act_bind (query V ''*IDN?'') (\<lambda>response.
          let idn_response = strip response;
              is_agilent_keysight =
                list_ex (\<lambda>brand. contains (lower idn_response) (lower brand))
                  [''agilent'', ''keysight'', ''hewlett-packard'', ''hp''];
              message = ''ID: '' @ idn_response
                @ (if \<not> is_agilent_keysight
                   then '' (Warning: Not recognized as Agilent/Keysight device)'' else '''')
          in act_return \<lparr>test_name = ''Identification'', passed = (length idn_response > 0),
                          message = message\<rparr>))
       (failed ''Identification'' ''Failed: '')"

text \<open>Lines 254-283.\<close>

definition test_self_test :: "'d visa \<Rightarrow> ('d, TestResult) action" where
  "test_self_test V =
     try_except
       (act_bind (write_cmd V ''*TST'') (\<lambda>_.
        act_bind (query V ''*TST?'') (\<lambda>response.
          let result = strip response;
              passed = (result = ''0'');
              message = ''Self-test result: '' @ result
                @ '' ('' @ (if passed then ''PASS'' else ''FAIL'') @ '')''
          in act_return \<lparr>test_name = ''Self Test'', passed = passed, message = message\<rparr>)))
       (failed ''Self Test'' ''Failed: '')"

text \<open>Lines 285-313.\<close>

definition test_reset :: "'d visa \<Rightarrow> ('d, TestResult) action" where
  "test_reset V =
     try_except
       (act_bind (write_cmd V ''*RST'') (\<lambda>_.
        act_bind (query V ''*IDN?'') (\<lambda>r.
          let response = strip r;
              passed = (length response > 0);
              message = ''Reset '' @ (if passed then ''successful'' else ''failed'')
          in act_return \<lparr>test_name = ''Reset Command'', passed = passed, message = message\<rparr>)))
       (failed ''Reset Command'' ''Failed: '')"

text \<open>
  Lines 315-350. \<open>error_loop V k errors\<close> is the \<^verbatim>\<open>for _ in range(10)\<close> loop with \<open>k\<close> rounds
  left; both \<^verbatim>\<open>break\<close>s leave it with the errors collected so far.
\<close>

fun error_loop :: "'d visa \<Rightarrow> nat \<Rightarrow> string list \<Rightarrow> ('d, string list) action" where
  "error_loop V 0 errors t = act_return errors t"
| "error_loop V (Suc k) errors t =
     (case query V ''SYST:ERR?'' t of
        (Inl e, t') \<Rightarrow> act_return errors t'
      | (Inr response, t') \<Rightarrow>
          (let error = strip response in
           if startswith error ''0,'' \<or> startswith error ''+0,''
           then act_return errors t'
           else error_loop V k (errors @ [error]) t'))"

definition test_error_status :: "'d visa \<Rightarrow> ('d, TestResult) action" where
  "test_error_status V =
     try_except
       (act_bind (write_cmd V ''*CLS'') (\<lambda>_.
        act_bind (error_loop V 10 []) (\<lambda>errors.
          let passed = (length errors = 0);
              message = (if passed then ''No errors found''
                         else ''Errors: '' @ join ''; '' (take 3 errors))
          in act_return \<lparr>test_name = ''Error Status'', passed = passed, message = message\<rparr>)))
       (failed ''Error Status'' ''Failed: '')"

text \<open>Lines 352-377.\<close>

definition test_status_registers :: "'d visa \<Rightarrow> ('d, TestResult) action" where
  "test_status_registers V =
     try_except
       (act_bind (query V ''*STB?'') (\<lambda>r1.
        act_bind (query V ''*ESR?'') (\<lambda>r2.
          let stb = strip r1;
              esr = strip r2;
              passed = True;
              message = ''STB: '' @ stb @ '', ESR: '' @ esr
          in act_return \<lparr>test_name = ''Status Registers'', passed = passed, message = message\<rparr>)))
       (failed ''Status Registers'' ''Failed: '')"

text \<open>Lines 379-406.\<close>

definition test_operation_complete :: "'d visa \<Rightarrow> ('d, TestResult) action" where
  "test_operation_complete V =
     try_except
       (act_bind (write_cmd V ''*OPC'') (\<lambda>_.
        act_bind (query V ''*OPC?'') (\<lambda>r.
          let opc_result = strip r;
              passed = (opc_result = ''1'');
              message = ''OPC result: '' @ opc_result
          in act_return \<lparr>test_name = ''Operation Complete'', passed = passed, message = message\<rparr>)))
       (failed ''Operation Complete'' ''Failed: '')"

text \<open>
  Lines 408-442. The elapsed time of a query is the difference of the clock after and
  before it. The list has five entries when the loop returns, so neither the division nor
  \<^verbatim>\<open>max\<close> can raise. Times, their average, the comparison with one second and the three
  decimals of the message are exact rationals here and binary floats in the program, so
  the verdict and the message of this test can differ from the program's in the last
  digit; no property below reads them.
\<close>

fun response_loop :: "'d visa \<Rightarrow> nat \<Rightarrow> rat list \<Rightarrow> ('d, rat list) action" where
  "response_loop V 0 response_times t = act_return response_times t"
| "response_loop V (Suc k) response_times t =
     (let query_start = time_time V t in
      case query V ''*IDN?'' t of
        (Inl e, t') \<Rightarrow> (Inl e, t')
      | (Inr _, t') \<Rightarrow>
          (let query_time = time_time V t' - query_start
           in response_loop V k (response_times @ [query_time]) t'))"

definition test_response_time :: "'d visa \<Rightarrow> ('d, TestResult) action" where
  "test_response_time V =
     try_except
       (act_bind (response_loop V 5 []) (\<lambda>response_times.
          let avg_response_time = sum_list response_times / of_nat (length response_times);
              max_response_time = fold max (tl response_times) (hd response_times);
              passed = (avg_response_time < 1);
              message = ''Avg: '' @ format_3f avg_response_time @ ''s, Max: ''
                @ format_3f max_response_time @ ''s''
          in act_return \<lparr>test_name = ''Response Time'', passed = passed, message = message\<rparr>))
       (failed ''Response Time'' ''Failed: '')"

text \<open>
  Lines 444-482. \<open>stability_loop V commands is n\<close> is the \<^verbatim>\<open>for i in range(total_commands)\<close>
  loop with the indices \<open>is\<close> still to come and \<open>n\<close> successes so far. \<open>commands\<close> has four
  entries, so \<open>commands ! (i mod 4)\<close> is in range.
\<close>

fun stability_loop :: "'d visa \<Rightarrow> string list \<Rightarrow> nat list \<Rightarrow> nat \<Rightarrow> ('d, nat) action" where
  "stability_loop V commands [] successful_commands t = act_return successful_commands t"
| "stability_loop V commands (i # is) successful_commands t =
     (case try_except
             (act_bind (query V (commands ! (i mod length commands))) (\<lambda>response.
                act_return (if strip response \<noteq> [] then successful_commands + 1
                            else successful_commands)))
             (\<lambda>e. act_return successful_commands) t of
        (Inl e, t') \<Rightarrow> (Inl e, t')
      | (Inr n, t') \<Rightarrow> stability_loop V commands is n t')"

definition test_communication_stability :: "'d visa \<Rightarrow> ('d, TestResult) action" where
  "test_communication_stability V =
     try_except
       (let total_commands = 10;
            commands = [''*IDN?'', ''*STB?'', ''*ESR?'', ''*OPC?'']
        in act_bind (stability_loop V commands [0..<total_commands] 0) (\<lambda>successful_commands.
           act_bind (true_div successful_commands total_commands) (\<lambda>success_rate.
             let passed = (success_rate \<ge> 9 / 10);
                 message = ''Success rate: '' @ format_1pct success_rate @ '' (''
                   @ str_nat successful_commands @ ''/'' @ str_nat total_commands @ '')''
             in act_return \<lparr>test_name = ''Communication Stability'', passed = passed,
                             message = message\<rparr>)))
       (failed ''Communication Stability'' ''Failed: '')"

text \<open>
  Lines 484-527. \<open>compliance_loop V cmds (compliant, total)\<close> is the \<^verbatim>\<open>for cmd in\<close> loop over
  the commands still to come.
\<close>

fun compliance_loop :: "'d visa \<Rightarrow> string list \<Rightarrow> nat \<times> nat \<Rightarrow> ('d, nat \<times> nat) action" where
  "compliance_loop V [] (compliant_commands, total_commands) t =
     act_return (compliant_commands, total_commands) t"
| "compliance_loop V (cmd # cmds) (compliant_commands, total_commands) t =
     (case try_except
             (if endswith cmd ''?''
              then act_bind (query V cmd) (\<lambda>response.
                     act_return (if strip response \<noteq> [] then compliant_commands + 1
                                 else compliant_commands))
              else act_bind (write_cmd V cmd) (\<lambda>_. act_return (compliant_commands + 1)))
             (\<lambda>e. act_return compliant_commands) t of
        (Inl e, t') \<Rightarrow> (Inl e, t')
      | (Inr n, t') \<Rightarrow> compliance_loop V cmds (n, total_commands + 1) t')"

definition mandatory_commands :: "string list" where
  "mandatory_commands = [''*IDN?'', ''*RST'', ''*CLS'', ''*ESR?'', ''*STB?'', ''*OPC?'']"

definition test_scpi_compliance :: "'d visa \<Rightarrow> ('d, TestResult) action" where
  "test_scpi_compliance V =
     try_except
       (act_bind (compliance_loop V mandatory_commands (0, 0)) (\<lambda>(compliant_commands, total_commands).
        act_bind (true_div compliant_commands total_commands) (\<lambda>compliance_rate.
          let passed = (compliance_rate \<ge> 8 / 10);
              message = ''SCPI compliance: '' @ format_1pct compliance_rate @ '' (''
                @ str_nat compliant_commands @ ''/'' @ str_nat total_commands @ '')''
          in act_return \<lparr>test_name = ''SCPI Compliance'', passed = passed, message = message\<rparr>)))
       (failed ''SCPI Compliance'' ''Failed: '')"

subsection \<open>The dispatcher, the cleanup and the run\<close>

text \<open>Lines 161-188: the body of the \<^verbatim>\<open>try\<close> of \<^verbatim>\<open>_execute_test\<close>.\<close>

definition dispatch :: "'d visa \<Rightarrow> string \<Rightarrow> ('d, TestResult) action" where
  "dispatch V name =
     (if name = ''Connection Test'' then test_connection V
      else if name = ''Identification'' then test_identification V
      else if name = ''Self Test'' then test_self_test V
      else if name = ''Reset Command'' then test_reset V
      else if name = ''Error Status'' then test_error_status V
      else if name = ''Status Registers'' then test_status_registers V
      else if name = ''Operation Complete'' then test_operation_complete V
      else if name = ''Response Time'' then test_response_time V
      else if name = ''Communication Stability'' then test_communication_stability V
      else if name = ''SCPI Compliance'' then test_scpi_compliance V
      else act_return \<lparr>test_name = name, passed = False, message = ''Unknown test''\<rparr>)"

text \<open>The names the chain of lines 161-179 compares with.\<close>

definition known_tests :: "string list" where
  "known_tests =
     [''Connection Test'', ''Identification'', ''Self Test'', ''Reset Command'',
      ''Error Status'', ''Status Registers'', ''Operation Complete'', ''Response Time'',
      ''Communication Stability'', ''SCPI Compliance'']"

text \<open>Lines 160 and 190-197: the \<^verbatim>\<open>try\<close> and its handler around a body.\<close>

definition guarded :: "string \<Rightarrow> ('d, TestResult) action \<Rightarrow> ('d, TestResult) action" where
  "guarded name body = try_except body (failed name ''Test failed: '')"

text \<open>Lines 156-197.\<close>

definition execute_test :: "'d visa \<Rightarrow> string \<Rightarrow> ('d, TestResult) action" where
  "execute_test V name = guarded name (dispatch V name)"

text \<open>Lines 529-537.\<close>

definition cleanup :: "'d visa \<Rightarrow> ('d, unit) action" where
  "cleanup V =
     try_except
       (act_bind (\<lambda>t. if instrument t
                      then act_bind (visa_call V Close_instrument) (\<lambda>_. act_return ()) t
                      else act_return () t) (\<lambda>_ t.
          if rm t then act_bind (visa_call V Close_rm) (\<lambda>_. act_return ()) t
          else act_return () t))
       (\<lambda>e. act_return ())"

text \<open>Lines 124-128: the resource manager, the session and its timeout.\<close>

definition connect :: "'d visa \<Rightarrow> ('d, unit) action" where
  "connect V =
     act_bind (visa_call V ResourceManager) (\<lambda>_ t0.
       (let t1 = t0\<lparr>rm := True\<rparr> in
        act_bind (visa_call V (Open_resource (resource_address t1))) (\<lambda>_ t2.
          (let t3 = t2\<lparr>instrument := True\<rparr> in
           act_bind (visa_call V (Set_timeout 5000)) (\<lambda>_. act_return ()) t3)) t1))"

text \<open>
  Line 138. The program truncates the float quotient; for every queue shorter than \<open>2^46\<close>
  that is the integer quotient.
\<close>

definition progress :: "nat \<Rightarrow> nat \<Rightarrow> int" where
  "progress i total_tests = int ((i + 1) * 100 div total_tests)"

text \<open>Lines 132-141, at index \<open>i\<close> with the names still to come.\<close>

fun run_loop :: "'d visa \<Rightarrow> nat \<Rightarrow> nat \<Rightarrow> string list \<Rightarrow> ('d, unit) action" where
  "run_loop V total_tests i [] t = act_return () t"
| "run_loop V total_tests i (name # rest) t =
     act_bind (emit (Test_started name)) (\<lambda>_.
     act_bind (execute_test V name) (\<lambda>result.
     act_bind (emit (Test_completed result)) (\<lambda>_.
     act_bind (emit (Progress_updated (progress i total_tests))) (\<lambda>_.
       run_loop V total_tests (i + 1) rest)))) t"

text \<open>Lines 117-154.\<close>

definition run :: "'d visa \<Rightarrow> ('d, unit) action" where
  "run V t =
     (if tests_to_run t = [] then act_return () t
      else
        try_finally
          (try_except
             (act_bind (connect V) (\<lambda>_ t'.
                run_loop V (length (tests_to_run t')) 0 (tests_to_run t') t'))
             (\<lambda>e. emit (Test_completed \<lparr>test_name = ''Connection'', passed = False,
                                         message = ''Failed to connect: '' @ e\<rparr>)))
          (cleanup V) t)"

text \<open>
  Stopping a run. \<^verbatim>\<open>run\<close> reads no stop flag; \<^verbatim>\<open>MainWindow.stop_tests\<close> (lines 937-944)
  and \<^verbatim>\<open>closeEvent\<close> (line 1055) call \<^verbatim>\<open>self.tester.terminate()\<close>, which ends the worker
  thread where it stands: what is left of \<^verbatim>\<open>run\<close>, its \<^verbatim>\<open>except\<close> and \<^verbatim>\<open>finally\<close> clauses
  included, is not executed. \<open>terminated_run V k\<close> is the worker ended after \<open>k\<close> rounds of
  the loop.
\<close>

definition terminated_run :: "'d visa \<Rightarrow> nat \<Rightarrow> ('d, unit) action" where
  "terminated_run V k t =
     (if tests_to_run t = [] then act_return () t
      else act_bind (connect V) (\<lambda>_ t'.
             run_loop V (length (tests_to_run t')) 0 (take k (tests_to_run t')) t') t)"

subsection \<open>Reading the log and the signals\<close>

text \<open>The three signals of one round of the loop, at index \<open>fst ir\<close> with result \<open>snd ir\<close>.\<close>

definition check_events :: "nat \<Rightarrow> nat \<times> TestResult \<Rightarrow> signal list" where
  "check_events n ir =
     [Test_started (test_name (snd ir)), Test_completed (snd ir),
      Progress_updated (progress (fst ir) n)]"

fun progress_values :: "signal list \<Rightarrow> int list" where
  "progress_values [] = []"
| "progress_values (Progress_updated p # ss) = p # progress_values ss"
| "progress_values (s # ss) = progress_values ss"

fun completed :: "signal list \<Rightarrow> TestResult list" where
  "completed [] = []"
| "completed (Test_completed r # ss) = r # completed ss"
| "completed (s # ss) = completed ss"

text \<open>The percentage in the words of the specification: the nearest integer.\<close>

definition nearest_percent :: "nat \<Rightarrow> nat \<Rightarrow> int" where
  "nearest_percent c n = round (of_nat (100 * c) / of_nat n :: rat)"

text \<open>A log entry of a command sent to the instrument, as opposed to session management.\<close>

definition is_io :: "call \<times> outcome \<Rightarrow> bool" where
  "is_io e = (case fst e of Query _ \<Rightarrow> True | Write _ \<Rightarrow> True | _ \<Rightarrow> False)"

text \<open>A reply that is not empty once stripped; a fault is no reply.\<close>

definition nonempty_reply :: "call \<times> outcome \<Rightarrow> bool" where
  "nonempty_reply e = (case snd e of Inl _ \<Rightarrow> False | Inr s \<Rightarrow> strip s \<noteq> [])"

definition reply_text :: "call \<times> outcome \<Rightarrow> string" where
  "reply_text e = (case snd e of Inl _ \<Rightarrow> [] | Inr s \<Rightarrow> strip s)"

text \<open>An answer of the error queue that reports an error: no fault and no \<open>0,\<close> or \<open>+0,\<close> in front.\<close>

definition is_error_reply :: "call \<times> outcome \<Rightarrow> bool" where
  "is_error_reply e =
     (case snd e of Inl _ \<Rightarrow> False
      | Inr s \<Rightarrow> \<not> startswith (strip s) ''0,'' \<and> \<not> startswith (strip s) ''+0,'')"

text \<open>
  A command that counts for the compliance rate: a query with a non-empty reply, or a
  write that returned.
\<close>

definition counted :: "call \<times> outcome \<Rightarrow> bool" where
  "counted e =
     (case fst e of Query _ \<Rightarrow> nonempty_reply e
      | Write _ \<Rightarrow> (case snd e of Inl _ \<Rightarrow> False | Inr _ \<Rightarrow> True)
      | _ \<Rightarrow> False)"

text \<open>
  Whether a session with the instrument, and whether a resource manager, is open after the
  calls of a log; a \<^verbatim>\<open>close\<close> that faults leaves it as it was.
\<close>

fun session_open :: "bool \<Rightarrow> (call \<times> outcome) list \<Rightarrow> bool" where
  "session_open b [] = b"
| "session_open b ((Open_resource a, Inr r) # es) = session_open True es"
| "session_open b ((Close_instrument, Inr r) # es) = session_open False es"
| "session_open b (e # es) = session_open b es"

fun manager_open :: "bool \<Rightarrow> (call \<times> outcome) list \<Rightarrow> bool" where
  "manager_open b [] = b"
| "manager_open b ((ResourceManager, Inr r) # es) = manager_open True es"
| "manager_open b ((Close_rm, Inr r) # es) = manager_open False es"
| "manager_open b (e # es) = manager_open b es"

text \<open>The object holds the handle of whatever the log leaves open.\<close>

definition handles_held :: "'d tester \<Rightarrow> bool" where
  "handles_held t =
     ((session_open False (log t) \<longrightarrow> instrument t)
      \<and> (manager_open False (log t) \<longrightarrow> rm t))"

subsection \<open>Instruments to run the program on\<close>

text \<open>An instrument that answers every call with the same reply.\<close>

definition steady :: "string \<Rightarrow> unit visa" where
  "steady reply = \<lparr>respond = (\<lambda>c d. (Inr reply, d)), clock = (\<lambda>d. 0)\<rparr>"

text \<open>An instrument on which every call faults.\<close>

definition faulty :: "string \<Rightarrow> unit visa" where
  "faulty e = \<lparr>respond = (\<lambda>c d. (Inl e, d)), clock = (\<lambda>d. 0)\<rparr>"

text \<open>A resource manager that cannot open the address.\<close>

definition unreachable :: "string \<Rightarrow> unit visa" where
  "unreachable e =
     \<lparr>respond = (\<lambda>c d. case c of Open_resource a \<Rightarrow> (Inl e, d) | _ \<Rightarrow> (Inr [], d)),
      clock = (\<lambda>d. 0)\<rparr>"

text \<open>
  An instrument that answers its queries from a script, one outcome a query, and times out
  once the script is used up; every other call returns.
\<close>

definition scripted :: "outcome list visa" where
  "scripted =
     \<lparr>respond = (\<lambda>c d. case c of
          Query q \<Rightarrow> (case d of [] \<Rightarrow> (Inl ''timeout'', []) | r # rs \<Rightarrow> (r, rs))
        | _ \<Rightarrow> (Inr [], d)),
      clock = (\<lambda>d. 0)\<rparr>"

text \<open>An instrument that refuses every write and answers every query.\<close>

definition read_only :: "string \<Rightarrow> unit visa" where
  "read_only reply =
     \<lparr>respond = (\<lambda>c d. case c of Write w \<Rightarrow> (Inl ''write refused'', d) | _ \<Rightarrow> (Inr reply, d)),
      clock = (\<lambda>d. 0)\<rparr>"

subsection \<open>What a test leaves alone\<close>

definition frame :: "'d tester \<Rightarrow> 'd tester \<Rightarrow> bool" where
  "frame t t' =
     (signals t' = signals t \<and> instrument t' = instrument t \<and> rm t' = rm t
      \<and> tests_to_run t' = tests_to_run t \<and> resource_address t' = resource_address t
      \<and> (\<exists>es. log t' = log t @ es \<and> list_all is_io es))"

definition keeps :: "('d, 'a) action \<Rightarrow> bool" where
  "keeps m = (\<forall>t. frame t (snd (m t)))"

definition named :: "string \<Rightarrow> ('d, TestResult) action \<Rightarrow> bool" where
  "named n m = (\<forall>t r. fst (m t) = Inr r \<longrightarrow> test_name r = n)"

section \<open>Properties\<close>

subsection \<open>Auxiliary facts\<close>


lemma frame_refl: "frame t t" by (simp add: frame_def)
lemma frame_trans: "frame t t' \<Longrightarrow> frame t' t'' \<Longrightarrow> frame t t''"
  unfolding frame_def by (elim conjE exE) (simp)

lemma keeps_return: "keeps (act_return x)" by (simp add: keeps_def act_return_def frame_def)
lemma keeps_raise: "keeps (act_raise x)" by (simp add: keeps_def act_raise_def frame_def)
lemma keeps_failed: "keeps (failed n p e)" by (simp add: failed_def keeps_return)
lemma keeps_query: "keeps (query V c)"
  by (simp add: keeps_def query_def visa_call_def act_raise_def frame_def is_io_def split: prod.splits)
lemma keeps_write: "keeps (write_cmd V c)"
  by (simp add: keeps_def write_cmd_def visa_call_def act_raise_def frame_def is_io_def split: prod.splits)
lemma keeps_bind: "keeps m \<Longrightarrow> (\<And>x. keeps (f x)) \<Longrightarrow> keeps (act_bind m f)"
  unfolding keeps_def act_bind_def
  apply (clarsimp split: prod.splits sum.splits)
  by (metis frame_trans snd_conv)
lemma keeps_try: "keeps m \<Longrightarrow> (\<And>x. keeps (h x)) \<Longrightarrow> keeps (try_except m h)"
  unfolding keeps_def try_except_def
  apply (clarsimp split: prod.splits sum.splits)
  by (metis frame_trans snd_conv)

lemma keepsD: "keeps m \<Longrightarrow> frame t (snd (m t))" by (simp add: keeps_def)

lemma try_failed_total: "\<exists>r. fst (try_except m (failed n p) t) = Inr r"
  by (simp add: try_except_def failed_def act_return_def split: prod.splits sum.splits)

lemma execute_test_total: "\<exists>r. fst (execute_test V name t) = Inr r"
  by (simp add: execute_test_def guarded_def try_failed_total)


lemma keeps_error_loop: "keeps (error_loop V k errs)"
proof -
  have "frame t (snd (error_loop V k errs t))" for t
  proof (induction k arbitrary: errs t)
    case 0 show ?case by (simp add: act_return_def frame_refl)
  next
    case (Suc k)
    have q: "frame t (snd (query V ''SYST:ERR?'' t))" by (rule keepsD[OF keeps_query])
    show ?case using q Suc
      by (auto simp: act_return_def Let_def split: prod.splits sum.splits intro: frame_trans)
  qed
  then show ?thesis by (simp add: keeps_def)
qed

lemma keeps_response_loop: "keeps (response_loop V k rts)"
proof -
  have "frame t (snd (response_loop V k rts t))" for t
  proof (induction k arbitrary: rts t)
    case 0 show ?case by (simp add: act_return_def frame_refl)
  next
    case (Suc k)
    have q: "frame t (snd (query V ''*IDN?'' t))" by (rule keepsD[OF keeps_query])
    show ?case using q Suc
      by (auto simp: act_return_def Let_def split: prod.splits sum.splits intro: frame_trans)
  qed
  then show ?thesis by (simp add: keeps_def)
qed

lemma keeps_stability_loop: "keeps (stability_loop V cs is n)"
proof -
  have "frame t (snd (stability_loop V cs is n t))" for t
  proof (induction "is" arbitrary: n t)
    case Nil show ?case by (simp add: act_return_def frame_refl)
  next
    case (Cons i "is")
    let ?step = "try_except
                (act_bind (query V (cs ! (i mod length cs))) (\<lambda>response.
                   act_return (if strip response \<noteq> [] then n + 1 else n)))
                (\<lambda>e. act_return n)"
    have k: "keeps ?step"
      by (intro keeps_try keeps_bind keeps_query keeps_return)
    then have q: "frame t (snd (?step t))" by (simp add: keeps_def)
    obtain r t' where st: "?step t = (r, t')" by (cases "?step t")
    show ?case using q st Cons
      by (cases r) (auto simp del: One_nat_def intro: frame_trans)
  qed
  then show ?thesis by (simp add: keeps_def)
qed

lemma keeps_compliance_loop: "keeps (compliance_loop V cmds ct)"
proof -
  have "frame t (snd (compliance_loop V cmds ct t))" for t
  proof (induction cmds arbitrary: ct t)
    case Nil show ?case by (cases ct) (simp add: act_return_def frame_refl)
  next
    case (Cons cmd cmds)
    obtain c n where ct: "ct = (c, n)" by (cases ct)
    let ?step = "try_except
             (if endswith cmd ''?''
              then act_bind (query V cmd) (\<lambda>response.
                     act_return (if strip response \<noteq> [] then c + 1 else c))
              else act_bind (write_cmd V cmd) (\<lambda>_. act_return (c + 1)))
             (\<lambda>e. act_return c)"
    have k: "keeps ?step"
      by (intro keeps_try keeps_return) (auto intro!: keeps_bind keeps_query keeps_write keeps_return)
    then have q: "frame t (snd (?step t))" by (simp add: keeps_def)
    obtain r t' where st: "?step t = (r, t')" by (cases "?step t")
    show ?case using q st Cons unfolding ct
      by (cases r) (auto simp del: One_nat_def intro: frame_trans)
  qed
  then show ?thesis by (simp add: keeps_def)
qed

lemma keeps_true_div: "keeps (true_div a b)"
  by (simp add: true_div_def keeps_return keeps_raise)

lemma keeps_dispatch: "keeps (dispatch V name)"
  unfolding dispatch_def test_connection_def test_identification_def test_self_test_def
    test_reset_def test_error_status_def test_status_registers_def test_operation_complete_def
    test_response_time_def test_communication_stability_def test_scpi_compliance_def Let_def
  by (auto intro!: keeps_try keeps_bind keeps_query keeps_write keeps_return keeps_failed
      keeps_error_loop keeps_response_loop keeps_stability_loop keeps_compliance_loop keeps_true_div
      simp: split_def)

lemma keeps_execute_test: "keeps (execute_test V name)"
  by (simp add: execute_test_def guarded_def keeps_try keeps_dispatch keeps_failed)




lemma named_return: "test_name r = n \<Longrightarrow> named n (act_return r)"
  by (simp add: named_def act_return_def)
lemma named_failed: "named n (failed n p e)"
  by (simp add: failed_def named_return)
lemma named_bind: "(\<And>x. named n (f x)) \<Longrightarrow> named n (act_bind m f)"
  by (auto simp: named_def act_bind_def split: prod.splits sum.splits)
lemma named_try: "named n m \<Longrightarrow> (\<And>e. named n (h e)) \<Longrightarrow> named n (try_except m h)"
  unfolding named_def try_except_def
  by (auto split: prod.splits sum.splits) (metis fst_conv)+

lemmas test_defs = test_connection_def test_identification_def test_self_test_def
    test_reset_def test_error_status_def test_status_registers_def test_operation_complete_def
    test_response_time_def test_communication_stability_def test_scpi_compliance_def

lemma named_tests:
  "named ''Connection Test'' (test_connection V)"
  "named ''Identification'' (test_identification V)"
  "named ''Self Test'' (test_self_test V)"
  "named ''Reset Command'' (test_reset V)"
  "named ''Error Status'' (test_error_status V)"
  "named ''Status Registers'' (test_status_registers V)"
  "named ''Operation Complete'' (test_operation_complete V)"
  "named ''Response Time'' (test_response_time V)"
  "named ''Communication Stability'' (test_communication_stability V)"
  "named ''SCPI Compliance'' (test_scpi_compliance V)"
  unfolding test_defs Let_def split_def
  by (intro named_try named_bind named_return named_failed; simp)+

lemma named_dispatch: "named name (dispatch V name)"
  unfolding dispatch_def
  by (simp add: named_tests named_return)

lemma named_execute_test: "named name (execute_test V name)"
  by (simp add: execute_test_def guarded_def named_try named_dispatch named_failed)

lemma execute_test_cases:
  obtains r t' where "execute_test V name t = (Inr r, t')" "test_name r = name" "frame t t'"
proof -
  obtain r where r: "fst (execute_test V name t) = Inr r" using execute_test_total by blast
  have "test_name r = name" using named_execute_test r by (auto simp: named_def)
  moreover have "frame t (snd (execute_test V name t))" by (rule keepsD[OF keeps_execute_test])
  ultimately show ?thesis using that[of r "snd (execute_test V name t)"] r
    by (metis prod.collapse)
qed

lemma run_loop_events:
  "\<exists>rs t'. run_loop V n i names t = (Inr (), t') \<and> map test_name rs = names
     \<and> signals t' = signals t @ concat (map (check_events n) (zip [i..<i + length names] rs))
     \<and> instrument t' = instrument t \<and> rm t' = rm t"
proof (induction names arbitrary: i t)
  case Nil
  show ?case by (simp add: act_return_def)
next
  case (Cons name names)
  let ?t1 = "t\<lparr>signals := signals t @ [Test_started name]\<rparr>"
  obtain r t2 where ex: "execute_test V name ?t1 = (Inr r, t2)" and nm: "test_name r = name"
    and fr: "frame ?t1 t2" by (rule execute_test_cases)
  let ?t4 = "t2\<lparr>signals := signals t2 @ [Test_completed r, Progress_updated (progress i n)]\<rparr>"
  obtain rs t' where IH: "run_loop V n (i + 1) names ?t4 = (Inr (), t')" "map test_name rs = names"
    "signals t' = signals ?t4 @ concat (map (check_events n) (zip [i + 1..<i + 1 + length names] rs))"
    "instrument t' = instrument ?t4" "rm t' = rm ?t4"
    using Cons[of "i + 1" ?t4] by blast
  have step: "run_loop V n i (name # names) t = run_loop V n (i + 1) names ?t4"
    using ex by (simp add: act_bind_def emit_def)
  have up: "[i..<i + length (name # names)] = i # [i + 1..<i + 1 + length names]"
    using upt_conv_Cons[of i "i + length (name # names)"] by simp
  have "signals t' = signals t @ concat (map (check_events n) (zip [i..<i + length (name # names)] (r # rs)))"
    unfolding up using IH(3) fr nm by (simp add: frame_def check_events_def)
  moreover have "instrument t' = instrument t" "rm t' = rm t" using IH(4,5) fr by (simp_all add: frame_def)
  ultimately show ?case using step IH(1,2) nm
    by (intro exI[of _ "r # rs"] exI[of _ t']) simp
qed

lemma cleanup_ok: "fst (cleanup V t) = Inr ()"
  by (simp add: cleanup_def try_except_def act_return_def split: prod.splits sum.splits)

lemma connect_frame:
  "signals (snd (connect V t)) = signals t \<and> tests_to_run (snd (connect V t)) = tests_to_run t"
  by (simp add: connect_def act_bind_def act_return_def visa_call_def Let_def
      split: prod.splits sum.splits)

lemma run_empty: "tests_to_run t = [] \<Longrightarrow> run V t = (Inr (), t)"
  by (simp add: run_def act_return_def)





lemma connect_log:
  "\<exists>es. log (snd (connect V t)) = log t @ es \<and> filter is_io es = []"
  by (auto simp: connect_def act_bind_def act_return_def visa_call_def Let_def is_io_def
      split: prod.splits sum.splits)

lemma cleanup_log:
  "\<exists>es. log (snd (cleanup V t)) = log t @ es \<and> filter is_io es = []"
  by (auto simp: cleanup_def try_except_def act_bind_def act_return_def visa_call_def is_io_def
      split: prod.splits sum.splits)

lemma cleanup_frame:
  "signals (snd (cleanup V t)) = signals t"
  by (auto simp: cleanup_def try_except_def act_bind_def act_return_def visa_call_def
      split: prod.splits sum.splits)

lemma run_connected:
  assumes "fst (connect V t) = Inr ()"
  shows "\<exists>rs. map test_name rs = tests_to_run t \<and> fst (run V t) = Inr ()
     \<and> signals (snd (run V t))
         = signals t @ concat (map (check_events (length rs)) (zip [0..<length rs] rs))"
proof (cases "tests_to_run t = []")
  case True
  then show ?thesis by (simp add: run_def act_return_def)
next
  case False
  obtain t1 where c: "connect V t = (Inr (), t1)" using assms by (cases "connect V t") auto
  have t1: "signals t1 = signals t" "tests_to_run t1 = tests_to_run t"
    using connect_frame[of V t] c by simp_all
  obtain rs t2 where l: "run_loop V (length (tests_to_run t1)) 0 (tests_to_run t1) t1 = (Inr (), t2)"
    "map test_name rs = tests_to_run t1"
    "signals t2 = signals t1 @ concat (map (check_events (length (tests_to_run t1)))
        (zip [0..<0 + length (tests_to_run t1)] rs))"
    using run_loop_events[of V "length (tests_to_run t1)" 0 "tests_to_run t1" t1] by blast
  have len: "length rs = length (tests_to_run t)" using l(2) t1 by (metis length_map)
  have r: "run V t = (case cleanup V t2 of (Inl e, t'') \<Rightarrow> (Inl e, t'') | (Inr _, t'') \<Rightarrow> (Inr (), t''))"
    using False c l(1) by (simp add: run_def try_finally_def try_except_def act_bind_def)
  obtain t3 where cl: "cleanup V t2 = (Inr (), t3)" using cleanup_ok[of V t2] by (cases "cleanup V t2") auto
  have "signals t3 = signals t2" using cleanup_frame[of V t2] cl by simp
  then show ?thesis using r cl l t1 len by (intro exI[of _ rs]) simp
qed

lemma dispatch_unknown:
  "name \<notin> set known_tests \<Longrightarrow>
   dispatch V name = act_return \<lparr>test_name = name, passed = False, message = ''Unknown test''\<rparr>"
  by (simp add: dispatch_def known_tests_def)


lemmas act_defs = act_return_def act_raise_def act_bind_def try_except_def try_finally_def
  emit_def visa_call_def query_def write_cmd_def failed_def

lemmas double_defs = steady_def faulty_def unreachable_def scripted_def read_only_def
  init_def add_test_def

lemma progress_values_append: "progress_values (xs @ ys) = progress_values xs @ progress_values ys"
  by (induction xs rule: progress_values.induct) simp_all

lemma progress_values_events:
  "length rs = length is \<Longrightarrow>
   progress_values (concat (map (check_events n) (zip is rs))) = map (\<lambda>i. progress i n) is"
  by (induction rs "is" rule: list_induct2) (simp_all add: check_events_def)

lemma query_open:
  "instrument t \<Longrightarrow> respond V (Query c) (device t) = (r, d') \<Longrightarrow>
   query V c t = (r, t\<lparr>device := d', log := log t @ [(Query c, r)]\<rparr>)"
  by (simp add: query_def visa_call_def)

lemma write_open:
  "instrument t \<Longrightarrow> respond V (Write c) (device t) = (r, d') \<Longrightarrow>
   write_cmd V c t = (r, t\<lparr>device := d', log := log t @ [(Write c, r)]\<rparr>)"
  by (simp add: write_cmd_def visa_call_def)

lemma error_loop_log:
  assumes "instrument t"
  shows "\<exists>errs stop t'. error_loop V k errs0 t = (Inr (errs0 @ map reply_text errs), t')
     \<and> log t' = log t @ errs @ stop
     \<and> list_all (\<lambda>e. fst e = Query ''SYST:ERR?'') (errs @ stop)
     \<and> list_all is_error_reply errs \<and> list_all (\<lambda>e. \<not> is_error_reply e) stop
     \<and> length errs + length stop \<le> k \<and> length stop \<le> 1
     \<and> (stop = [] \<longrightarrow> length errs = k)"
  using assms
proof (induction k arbitrary: errs0 t)
  case 0
  show ?case by (simp add: act_return_def)
next
  case (Suc k)
  obtain r d' where rd: "respond V (Query ''SYST:ERR?'') (device t) = (r, d')"
    by (cases "respond V (Query ''SYST:ERR?'') (device t)")
  let ?e = "(Query ''SYST:ERR?'', r)"
  let ?t1 = "t\<lparr>device := d', log := log t @ [?e]\<rparr>"
  have q: "query V ''SYST:ERR?'' t = (r, ?t1)" by (rule query_open[OF Suc.prems rd])
  show ?case
  proof (cases "is_error_reply ?e")
    case False
    then have "error_loop V (Suc k) errs0 t = (Inr errs0, ?t1)"
      using q by (cases r) (auto simp: is_error_reply_def act_return_def Let_def)
    then show ?thesis using False
      by (intro exI[of _ "[]"] exI[of _ "[?e]"] exI[of _ ?t1]) simp
  next
    case True
    then obtain s where s: "r = Inr s" by (cases r) (auto simp: is_error_reply_def)
    have step: "error_loop V (Suc k) errs0 t = error_loop V k (errs0 @ [strip s]) ?t1"
      using q True s by (simp add: is_error_reply_def Let_def)
    have "instrument ?t1" using Suc.prems by simp
    from Suc.IH[OF this, of "errs0 @ [strip s]"]
    obtain errs stop t' where IH: "error_loop V k (errs0 @ [strip s]) ?t1 = (Inr ((errs0 @ [strip s]) @ map reply_text errs), t')"
      "log t' = log ?t1 @ errs @ stop"
      "list_all (\<lambda>e. fst e = Query ''SYST:ERR?'') (errs @ stop)"
      "list_all is_error_reply errs" "list_all (\<lambda>e. \<not> is_error_reply e) stop"
      "length errs + length stop \<le> k" "length stop \<le> 1" "stop = [] \<longrightarrow> length errs = k"
      by blast
    have rt: "reply_text ?e = strip s" using s by (simp add: reply_text_def)
    show ?thesis using step IH True rt
      by (intro exI[of _ "?e # errs"] exI[of _ stop] exI[of _ t']) simp
  qed
qed

lemma stability_step:
  assumes "instrument t" and "respond V (Query c) (device t) = (r, d')"
  shows "try_except
           (act_bind (query V c) (\<lambda>response.
              act_return (if strip response \<noteq> [] then n + 1 else n)))
           (\<lambda>e. act_return n) t
         = (Inr (n + length (filter nonempty_reply [(Query c, r)])),
            t\<lparr>device := d', log := log t @ [(Query c, r)]\<rparr>)"
  using query_open[OF assms]
  by (cases r) (simp_all add: try_except_def act_bind_def act_return_def nonempty_reply_def)

lemma stability_loop_log:
  assumes "instrument t"
  shows "\<exists>es t'. stability_loop V cs is n t = (Inr (n + length (filter nonempty_reply es)), t')
     \<and> log t' = log t @ es
     \<and> map fst es = map (\<lambda>j. Query (cs ! (j mod length cs))) is"
  using assms
proof (induction "is" arbitrary: n t)
  case Nil
  show ?case by (simp add: act_return_def)
next
  case (Cons i "is")
  let ?c = "cs ! (i mod length cs)"
  obtain r d' where rd: "respond V (Query ?c) (device t) = (r, d')"
    by (cases "respond V (Query ?c) (device t)")
  let ?e = "(Query ?c, r)"
  let ?t1 = "t\<lparr>device := d', log := log t @ [?e]\<rparr>"
  let ?n1 = "n + length (filter nonempty_reply [?e])"
  note st = stability_step[OF Cons.prems rd, of n]
  have "instrument ?t1" using Cons.prems by simp
  from Cons.IH[OF this, of ?n1]
  obtain es t' where IH: "stability_loop V cs is ?n1 ?t1 = (Inr (?n1 + length (filter nonempty_reply es)), t')"
    "log t' = log ?t1 @ es" "map fst es = map (\<lambda>j. Query (cs ! (j mod length cs))) is"
    by blast
  have step: "stability_loop V cs (i # is) n t = stability_loop V cs is ?n1 ?t1"
    using st by simp
  show ?case unfolding step using IH
    by (intro exI[of _ "?e # es"] exI[of _ t']) simp
qed

lemma compliance_step:
  assumes "instrument t"
    and "respond V (if endswith cmd ''?'' then Query cmd else Write cmd) (device t) = (r, d')"
  shows "try_except
             (if endswith cmd ''?''
              then act_bind (query V cmd) (\<lambda>response.
                     act_return (if strip response \<noteq> [] then c + 1 else c))
              else act_bind (write_cmd V cmd) (\<lambda>_. act_return (c + 1)))
             (\<lambda>e. act_return c) t
         = (Inr (c + length (filter counted [(if endswith cmd ''?'' then Query cmd else Write cmd, r)])),
            t\<lparr>device := d', log := log t @ [(if endswith cmd ''?'' then Query cmd else Write cmd, r)]\<rparr>)"
proof (cases "endswith cmd ''?''")
  case True
  then show ?thesis using query_open[OF assms(1), of V cmd r d'] assms(2)
    by (cases r) (simp_all add: try_except_def act_bind_def act_return_def counted_def nonempty_reply_def)
next
  case False
  then show ?thesis using write_open[OF assms(1), of V cmd r d'] assms(2)
    by (cases r) (simp_all add: try_except_def act_bind_def act_return_def counted_def)
qed

lemma compliance_loop_log:
  assumes "instrument t"
  shows "\<exists>es t'. compliance_loop V cmds (c, n) t
        = (Inr (c + length (filter counted es), n + length cmds), t')
     \<and> log t' = log t @ es
     \<and> map fst es = map (\<lambda>cmd. if endswith cmd ''?'' then Query cmd else Write cmd) cmds"
  using assms
proof (induction cmds arbitrary: c n t)
  case Nil
  show ?case by (simp add: act_return_def)
next
  case (Cons cmd cmds)
  let ?call = "if endswith cmd ''?'' then Query cmd else Write cmd"
  obtain r d' where rd: "respond V ?call (device t) = (r, d')"
    by (cases "respond V ?call (device t)")
  let ?e = "(?call, r)"
  let ?t1 = "t\<lparr>device := d', log := log t @ [?e]\<rparr>"
  let ?c1 = "c + length (filter counted [?e])"
  note st = compliance_step[OF Cons.prems rd, of c]
  have "instrument ?t1" using Cons.prems by simp
  from Cons.IH[OF this, of ?c1 "n + 1"]
  obtain es t' where IH: "compliance_loop V cmds (?c1, n + 1) ?t1
        = (Inr (?c1 + length (filter counted es), n + 1 + length cmds), t')"
    "log t' = log ?t1 @ es"
    "map fst es = map (\<lambda>cmd. if endswith cmd ''?'' then Query cmd else Write cmd) cmds"
    by blast
  have step: "compliance_loop V (cmd # cmds) (c, n) t = compliance_loop V cmds (?c1, n + 1) ?t1"
    using st by simp
  show ?case unfolding step using IH
    by (intro exI[of _ "?e # es"] exI[of _ t']) simp
qed

lemma fmts: "format_1pct (9 / 10) = ''90.0%''" "str_nat 9 = ''9''" "str_nat 10 = ''10''"
  "format_1pct (5 / 6) = ''83.3%''" "str_nat 5 = ''5''" "str_nat 6 = ''6''"
  "format_1pct (2 / 3) = ''66.7%''" "str_nat 4 = ''4''"
  by code_simp+

lemma session_open_append: "session_open b (es @ es') = session_open (session_open b es) es'"
  by (induction b es rule: session_open.induct) simp_all

lemma manager_open_append: "manager_open b (es @ es') = manager_open (manager_open b es) es'"
  by (induction b es rule: manager_open.induct) simp_all

lemma session_open_io: "list_all is_io es \<Longrightarrow> session_open b es = b"
  by (induction b es rule: session_open.induct) (simp_all add: is_io_def)

lemma manager_open_io: "list_all is_io es \<Longrightarrow> manager_open b es = b"
  by (induction b es rule: manager_open.induct) (simp_all add: is_io_def)

lemma frame_held: "frame t t' \<Longrightarrow> handles_held t \<Longrightarrow> handles_held t'"
  by (auto simp: frame_def handles_held_def session_open_append manager_open_append
      session_open_io manager_open_io)

lemma emit_held: "handles_held t \<Longrightarrow> handles_held (snd (emit s t))"
  by (simp add: handles_held_def emit_def)

lemma run_loop_held: "handles_held t \<Longrightarrow> handles_held (snd (run_loop V n i names t))"
proof (induction names arbitrary: i t)
  case Nil
  then show ?case by (simp add: act_return_def)
next
  case (Cons name names)
  let ?t1 = "t\<lparr>signals := signals t @ [Test_started name]\<rparr>"
  obtain r t2 where ex: "execute_test V name ?t1 = (Inr r, t2)" and fr: "frame ?t1 t2"
    by (rule execute_test_cases)
  let ?t4 = "t2\<lparr>signals := signals t2 @ [Test_completed r, Progress_updated (progress i n)]\<rparr>"
  have step: "run_loop V n i (name # names) t = run_loop V n (i + 1) names ?t4"
    using ex by (simp add: act_bind_def emit_def)
  have "handles_held ?t1" using Cons.prems by (simp add: handles_held_def)
  then have "handles_held t2" using fr frame_held by blast
  then have "handles_held ?t4" by (simp add: handles_held_def)
  then show ?case unfolding step by (rule Cons.IH)
qed

lemma connect_held: "handles_held t \<Longrightarrow> handles_held (snd (connect V t))"
  by (auto simp: connect_def act_bind_def act_return_def visa_call_def Let_def handles_held_def
      session_open_append manager_open_append split: prod.splits sum.splits)

lemma cleanup_closes:
  assumes "handles_held t"
    and "\<forall>d. \<exists>r d'. respond V Close_instrument d = (Inr r, d')"
    and "\<forall>d. \<exists>r d'. respond V Close_rm d = (Inr r, d')"
  shows "\<not> session_open False (log (snd (cleanup V t)))
       \<and> \<not> manager_open False (log (snd (cleanup V t)))"
proof -
  obtain r1 d1 where c1: "respond V Close_instrument (device t) = (Inr r1, d1)"
    using assms(2) by blast
  obtain r2 d2 where c2: "respond V Close_rm (device t) = (Inr r2, d2)"
    using assms(3) by blast
  obtain r3 d3 where c3: "respond V Close_rm d1 = (Inr r3, d3)"
    using assms(3) by blast
  show ?thesis using assms(1) c1 c2 c3
    by (cases "instrument t"; cases "rm t")
       (simp_all add: cleanup_def try_except_def act_bind_def act_return_def visa_call_def
          handles_held_def session_open_append manager_open_append)
qed

subsection \<open>The claims\<close>

text \<open>
  Claim C1. For every name, every instrument and every state, \<^verbatim>\<open>_execute_test\<close> returns
  one result, bearing the name asked for, and raises nothing; and whatever the body inside
  its \<^verbatim>\<open>try\<close> is, a fault that leaves the body becomes the failed result whose message is
  \<open>Test failed: \<close> followed by the text of the fault.
\<close>

theorem execute_test_one_result:
  "(\<exists>r t'. execute_test V name t = (Inr r, t') \<and> test_name r = name)
   \<and> (fst (body t) = Inl cause \<longrightarrow>
        fst (guarded name body t)
          = Inr \<lparr>test_name = name, passed = False, message = ''Test failed: '' @ cause\<rparr>)"
proof
  show "\<exists>r t'. execute_test V name t = (Inr r, t') \<and> test_name r = name"
    by (rule execute_test_cases[of V name t]) blast
  show "fst (body t) = Inl cause \<longrightarrow>
        fst (guarded name body t)
          = Inr \<lparr>test_name = name, passed = False, message = ''Test failed: '' @ cause\<rparr>"
    by (cases "body t") (simp add: guarded_def try_except_def failed_def act_return_def)
qed

theorem execute_test_one_result_witness:
  "fst (act_raise ''VI_ERROR_TMO'' (init ''GPIB0::22::INSTR'' ())) = Inl ''VI_ERROR_TMO''
   \<and> fst (guarded ''Self Test'' (act_raise ''VI_ERROR_TMO'') (init ''GPIB0::22::INSTR'' ()))
       = Inr \<lparr>test_name = ''Self Test'', passed = False, message = ''Test failed: VI_ERROR_TMO''\<rparr>"
  using execute_test_one_result[of "steady ''1''" "''Self Test''" "init ''GPIB0::22::INSTR'' ()" "act_raise ''VI_ERROR_TMO''" "''VI_ERROR_TMO''"]
  by (simp add: act_raise_def)

text \<open>
  Claim C2. When the link opens, the signals of a run are, in this order and with nothing
  else between them, \<open>Test_started\<close>, \<open>Test_completed\<close> and \<open>Progress_updated\<close> of the first
  queued test, then those of the second, and so on: one completed result for each queued
  name, each after its own start and before the start of the next.
\<close>

theorem run_events_interleaved:
  assumes "fst (connect V t) = Inr ()"
  shows "\<exists>rs. map test_name rs = tests_to_run t
     \<and> signals (snd (run V t))
         = signals t @ concat (map (check_events (length rs)) (zip [0..<length rs] rs))"
  using run_connected[OF assms] by blast

theorem run_events_interleaved_witness:
  "fst (connect (steady ''1'') (add_test ''Bogus'' (add_test ''Status Registers'' (init ''GPIB0::22::INSTR'' ())))) = Inr ()
   \<and> (\<exists>rs. map test_name rs = [''Status Registers'', ''Bogus'']
     \<and> signals (snd (run (steady ''1'') (add_test ''Bogus'' (add_test ''Status Registers'' (init ''GPIB0::22::INSTR'' ())))))
         = concat (map (check_events (length rs)) (zip [0..<length rs] rs)))"
  using run_events_interleaved[of "steady ''1''" "add_test ''Bogus'' (add_test ''Status Registers'' (init ''GPIB0::22::INSTR'' ()))"]
  by (simp add: connect_def act_defs double_defs)

text \<open>
  Claim C3, as amended. When the link opens, the values carried by the \<open>Progress_updated\<close>
  signals of a run over \<open>n\<close> queued tests are, in order, \<open>100 * c div n\<close> for \<open>c = 1, \<dots>, n\<close>: the
  percentage truncated to an integer, as \<^verbatim>\<open>int\<close> does at line 138, not rounded to the nearest.
\<close>

theorem progress_is_integer_quotient:
  assumes "fst (connect V t) = Inr ()"
  shows "progress_values (drop (length (signals t)) (signals (snd (run V t))))
           = map (\<lambda>c. int (100 * c div length (tests_to_run t))) [1..<Suc (length (tests_to_run t))]"
proof -
  obtain rs where rs: "map test_name rs = tests_to_run t"
    "signals (snd (run V t)) = signals t @ concat (map (check_events (length rs)) (zip [0..<length rs] rs))"
    using run_connected[OF assms] by blast
  have len: "length rs = length (tests_to_run t)" using rs(1) by (metis length_map)
  have "progress_values (drop (length (signals t)) (signals (snd (run V t))))
      = map (\<lambda>i. progress i (length rs)) [0..<length rs]"
    using rs(2) by (simp add: progress_values_events)
  also have "\<dots> = map (\<lambda>c. int (100 * c div length rs)) (map Suc [0..<length rs])"
    by (simp add: progress_def mult.commute)
  also have "map Suc [0..<length rs] = [1..<Suc (length rs)]"
    by (simp add: map_Suc_upt)
  finally show ?thesis by (simp add: len)
qed

theorem progress_is_integer_quotient_witness:
  "fst (connect (steady ''1'') (add_test ''Bogus'' (add_test ''Status Registers'' (init ''GPIB0::22::INSTR'' ())))) = Inr ()
   \<and> progress_values (signals (snd (run (steady ''1'') (add_test ''Bogus'' (add_test ''Status Registers'' (init ''GPIB0::22::INSTR'' ()))))))
       = [50, 100]"
proof -
  let ?t = "add_test ''Bogus'' (add_test ''Status Registers'' (init ''GPIB0::22::INSTR'' ()))"
  have h: "fst (connect (steady ''1'') ?t) = Inr ()"
    by (simp add: connect_def act_defs double_defs)
  have "map (\<lambda>c. int (100 * c div length (tests_to_run ?t))) [1..<Suc (length (tests_to_run ?t))]
          = [50, 100]"
    by code_simp
  moreover have "signals ?t = []" by (simp add: double_defs)
  ultimately show ?thesis using h progress_is_integer_quotient[OF h] by simp
qed

text \<open>
  Claim C3 as the specification words it fails on a queue of three tests: after the second
  the program reports 66, and the nearest integer to \<open>200 / 3\<close> is 67.
\<close>

theorem progress_not_nearest_integer:
  "progress_values (signals (snd (run (steady ''1'')
      (add_test ''Status Registers'' (add_test ''Status Registers'' (add_test ''Status Registers''
        (init ''GPIB0::22::INSTR'' ()))))))) = [33, 66, 100]
   \<and> nearest_percent 2 3 = 67"
proof
  show "nearest_percent 2 3 = 67"
    unfolding nearest_percent_def by code_simp
qed (simp add: run_def connect_def execute_test_def guarded_def dispatch_def
      test_status_registers_def progress_def cleanup_def act_defs double_defs)

text \<open>
  Claim C4. When the queue is not empty and connecting faults with the text \<open>e\<close>, the run
  raises nothing; it emits one signal, the completed result named \<open>Connection\<close> with
  \<open>passed = False\<close> and the message \<open>Failed to connect: \<close> followed by \<open>e\<close>; no command is
  sent to the instrument; and the state it ends in is the one \<^verbatim>\<open>_cleanup\<close> returns.
\<close>

theorem open_failure_reported:
  assumes "tests_to_run t \<noteq> []" and "fst (connect V t) = Inl e"
  shows "fst (run V t) = Inr ()
     \<and> signals (snd (run V t))
         = signals t @ [Test_completed \<lparr>test_name = ''Connection'', passed = False,
                                        message = ''Failed to connect: '' @ e\<rparr>]
     \<and> filter is_io (drop (length (log t)) (log (snd (run V t)))) = []
     \<and> snd (run V t)
         = snd (cleanup V (snd (emit (Test_completed \<lparr>test_name = ''Connection'', passed = False,
                                        message = ''Failed to connect: '' @ e\<rparr>) (snd (connect V t)))))"
proof -
  let ?ev = "Test_completed \<lparr>test_name = ''Connection'', passed = False,
                                        message = ''Failed to connect: '' @ e\<rparr>"
  obtain t1 where c: "connect V t = (Inl e, t1)" using assms(2) by (cases "connect V t") auto
  let ?t2 = "t1\<lparr>signals := signals t1 @ [?ev]\<rparr>"
  obtain t3 where cl: "cleanup V ?t2 = (Inr (), t3)"
    using cleanup_ok[of V ?t2] by (cases "cleanup V ?t2") auto
  have r: "run V t = (Inr (), t3)"
    using assms(1) c cl by (simp add: run_def try_finally_def try_except_def act_bind_def emit_def)
  have s1: "signals t1 = signals t" using connect_frame[of V t] c by simp
  have s3: "signals t3 = signals ?t2" using cleanup_frame[of V ?t2] cl by simp
  obtain es1 where l1: "log t1 = log t @ es1" "filter is_io es1 = []"
    using connect_log[of V t] c by auto
  obtain es2 where l2: "log t3 = log ?t2 @ es2" "filter is_io es2 = []"
    using cleanup_log[of V ?t2] cl by auto
  show ?thesis using r s1 s3 l1 l2 c cl by (simp add: emit_def)
qed

theorem open_failure_reported_witness:
  "tests_to_run (add_test ''Self Test'' (init ''GPIB0::22::INSTR'' ())) \<noteq> []
   \<and> fst (connect (unreachable ''VI_ERROR_RSRC_NFOUND'') (add_test ''Self Test'' (init ''GPIB0::22::INSTR'' ())))
       = Inl ''VI_ERROR_RSRC_NFOUND''
   \<and> signals (snd (run (unreachable ''VI_ERROR_RSRC_NFOUND'') (add_test ''Self Test'' (init ''GPIB0::22::INSTR'' ()))))
       = [Test_completed \<lparr>test_name = ''Connection'', passed = False,
                           message = ''Failed to connect: VI_ERROR_RSRC_NFOUND''\<rparr>]"
  using open_failure_reported[of "add_test ''Self Test'' (init ''GPIB0::22::INSTR'' ())" "unreachable ''VI_ERROR_RSRC_NFOUND''" "''VI_ERROR_RSRC_NFOUND''"]
  by (simp add: connect_def cleanup_def act_defs double_defs)

text \<open>
  Claim C5, as amended. When the write of \<open>*CLS\<close> returns, the Error Status test sends it
  first and then only \<open>SYST:ERR?\<close> queries, ten at most: a run \<open>errs\<close> of answers that report
  an error, ended by at most one answer \<open>stop\<close> that does not (a fault, or a reply that once
  stripped starts with \<open>0,\<close> or \<open>+0,\<close>), and by none only when all ten reported errors. The
  test raises nothing, passes exactly when \<open>errs\<close> is empty, and its message on failure
  lists the first three of the collected errors, stripped and joined by \<open>; \<close>.
\<close>

theorem error_status_protocol:
  assumes "fst (write_cmd V ''*CLS'' t) = Inr w"
  shows "\<exists>errs stop r t'. test_error_status V t = (Inr r, t')
     \<and> log t' = log t @ [(Write ''*CLS'', Inr w)] @ errs @ stop
     \<and> list_all (\<lambda>e. fst e = Query ''SYST:ERR?'') (errs @ stop)
     \<and> list_all is_error_reply errs \<and> list_all (\<lambda>e. \<not> is_error_reply e) stop
     \<and> length errs + length stop \<le> 10 \<and> length stop \<le> 1
     \<and> (stop = [] \<longrightarrow> length errs = 10)
     \<and> test_name r = ''Error Status''
     \<and> passed r = (errs = [])
     \<and> message r = (if errs = [] then ''No errors found''
                     else ''Errors: '' @ join ''; '' (map reply_text (take 3 errs)))"
proof -
  obtain t1 where w: "write_cmd V ''*CLS'' t = (Inr w, t1)"
    using assms by (cases "write_cmd V ''*CLS'' t") auto
  have i: "instrument t" using w by (auto simp: write_cmd_def act_raise_def split: if_splits)
  have t1: "log t1 = log t @ [(Write ''*CLS'', Inr w)]" "instrument t1"
    using w i by (auto simp: write_cmd_def visa_call_def split: prod.splits)
  from error_loop_log[OF t1(2), of V 10 "[]"]
  obtain errs stop t' where L: "error_loop V 10 [] t1 = (Inr (map reply_text errs), t')"
      "log t' = log t1 @ errs @ stop"
      "list_all (\<lambda>e. fst e = Query ''SYST:ERR?'') (errs @ stop)"
      "list_all is_error_reply errs" "list_all (\<lambda>e. \<not> is_error_reply e) stop"
      "length errs + length stop \<le> 10" "length stop \<le> 1" "stop = [] \<longrightarrow> length errs = 10"
    by auto
  let ?r = "\<lparr>test_name = ''Error Status'', passed = (errs = []),
             message = (if errs = [] then ''No errors found''
                        else ''Errors: '' @ join ''; '' (map reply_text (take 3 errs)))\<rparr>"
  have "test_error_status V t = (Inr ?r, t')"
    using w L(1)
    by (simp add: test_error_status_def try_except_def act_bind_def act_return_def Let_def take_map)
  then show ?thesis using L t1
    by (intro exI[of _ errs] exI[of _ stop] exI[of _ ?r] exI[of _ t']) simp
qed

theorem error_status_protocol_witness:
  "fst (write_cmd scripted ''*CLS''
          (snd (connect scripted (init ''GPIB0::22::INSTR''
             [Inr ''-113,Undefined header'', Inr ''-222,Data out of range'',
              Inr ''-410,Query INTERRUPTED'', Inr ''+0,No error''])))) = Inr []
   \<and> fst (test_error_status scripted
          (snd (connect scripted (init ''GPIB0::22::INSTR''
             [Inr ''-113,Undefined header'', Inr ''-222,Data out of range'',
              Inr ''-410,Query INTERRUPTED'', Inr ''+0,No error'']))))
       = Inr \<lparr>test_name = ''Error Status'', passed = False,
               message = ''Errors: -113,Undefined header; -222,Data out of range; -410,Query INTERRUPTED''\<rparr>"
proof -
  let ?t = "snd (connect scripted (init ''GPIB0::22::INSTR''
             [Inr ''-113,Undefined header'', Inr ''-222,Data out of range'',
              Inr ''-410,Query INTERRUPTED'', Inr ''+0,No error'']))"
  have h: "fst (write_cmd scripted ''*CLS'' ?t) = Inr []" by code_simp
  have v: "fst (test_error_status scripted ?t)
       = Inr \<lparr>test_name = ''Error Status'', passed = False,
               message = ''Errors: -113,Undefined header; -222,Data out of range; -410,Query INTERRUPTED''\<rparr>"
    by code_simp
  from error_status_protocol[OF h] obtain r t' where "test_error_status scripted ?t = (Inr r, t')" by blast
  then show ?thesis using h v by simp
qed

text \<open>
  Claim C5 as the specification words it fails when the write of \<open>*CLS\<close> faults: the fault
  reaches the outer handler of lines 343-350, so no query is sent, no error is collected,
  and still the test does not pass; its message is \<open>Failed: \<close> and the text of the fault.
\<close>

theorem error_status_fails_on_refused_clear:
  "fst (test_error_status (read_only ''+0,No error'')
          (snd (connect (read_only ''+0,No error'') (init ''GPIB0::22::INSTR'' ()))))
     = Inr \<lparr>test_name = ''Error Status'', passed = False, message = ''Failed: write refused''\<rparr>
   \<and> filter is_io (log (snd (test_error_status (read_only ''+0,No error'')
          (snd (connect (read_only ''+0,No error'') (init ''GPIB0::22::INSTR'' ()))))))
     = [(Write ''*CLS'', Inl ''write refused'')]"
  by code_simp

text \<open>
  Claim C6. With a session at hand, the Communication Stability test raises nothing and
  sends exactly ten queries, the \<open>i\<close>-th being entry \<open>i mod 4\<close> of \<open>*IDN?\<close>, \<open>*STB?\<close>, \<open>*ESR?\<close>,
  \<open>*OPC?\<close>. A query succeeds when it returns a reply that is not empty once stripped; one
  that faults is passed over. The test passes exactly when the successes divided by ten
  are at least \<open>9 / 10\<close>; nine successes pass.
\<close>

theorem stability_protocol:
  assumes "instrument t"
  shows "\<exists>es r t'. test_communication_stability V t = (Inr r, t')
     \<and> log t' = log t @ es
     \<and> map fst es = map (\<lambda>i. Query ([''*IDN?'', ''*STB?'', ''*ESR?'', ''*OPC?''] ! (i mod 4))) [0..<10]
     \<and> test_name r = ''Communication Stability''
     \<and> passed r = ((of_nat (length (filter nonempty_reply es)) :: rat) / 10 \<ge> 9 / 10)
     \<and> (length (filter nonempty_reply es) = 9 \<longrightarrow> passed r)"
proof -
  let ?cs = "[''*IDN?'', ''*STB?'', ''*ESR?'', ''*OPC?'']"
  from stability_loop_log[OF assms, of V ?cs "[0..<10]" 0]
  obtain es t' where L: "stability_loop V ?cs [0..<10] 0 t = (Inr (length (filter nonempty_reply es)), t')"
    "log t' = log t @ es" "map fst es = map (\<lambda>j. Query (?cs ! (j mod length ?cs))) [0..<10]"
    by auto
  let ?k = "length (filter nonempty_reply es)"
  let ?rate = "(of_nat ?k :: rat) / of_nat 10"
  let ?r = "\<lparr>test_name = ''Communication Stability'', passed = (?rate \<ge> 9 / 10),
             message = ''Success rate: '' @ format_1pct ?rate @ '' (''
                   @ str_nat ?k @ ''/'' @ str_nat 10 @ '')''\<rparr>"
  have "test_communication_stability V t = (Inr ?r, t')"
    using L(1)
    by (simp add: test_communication_stability_def try_except_def act_bind_def act_return_def
        true_div_def Let_def del: str_nat.simps stability_loop.simps)
  moreover have "length ?cs = 4" by simp
  ultimately show ?thesis using L(2,3)
    by (intro exI[of _ es] exI[of _ ?r] exI[of _ t']) (simp del: upt_rec_numeral)
qed

theorem stability_protocol_witness:
  "instrument (snd (connect scripted (init ''GPIB0::22::INSTR''
       [Inr ''1'', Inr ''0'', Inr ''0'', Inr ''1'', Inl ''VI_ERROR_TMO'',
        Inr ''0'', Inr ''0'', Inr ''1'', Inr ''1'', Inr ''0''])))
   \<and> fst (test_communication_stability scripted (snd (connect scripted (init ''GPIB0::22::INSTR''
       [Inr ''1'', Inr ''0'', Inr ''0'', Inr ''1'', Inl ''VI_ERROR_TMO'',
        Inr ''0'', Inr ''0'', Inr ''1'', Inr ''1'', Inr ''0'']))))
       = Inr \<lparr>test_name = ''Communication Stability'', passed = True,
               message = ''Success rate: 90.0% (9/10)''\<rparr>"
proof -
  let ?t = "snd (connect scripted (init ''GPIB0::22::INSTR''
       [Inr ''1'', Inr ''0'', Inr ''0'', Inr ''1'', Inl ''VI_ERROR_TMO'',
        Inr ''0'', Inr ''0'', Inr ''1'', Inr ''1'', Inr ''0'']))"
  let ?loop = "stability_loop scripted [''*IDN?'', ''*STB?'', ''*ESR?'', ''*OPC?''] [0..<10] 0 ?t"
  have h: "instrument ?t" by code_simp
  have "fst ?loop = Inr 9" by code_simp
  then obtain t9 where L: "?loop = (Inr 9, t9)" by (cases ?loop) auto
  have v: "fst (test_communication_stability scripted ?t)
       = Inr \<lparr>test_name = ''Communication Stability'', passed = True,
               message = ''Success rate: 90.0% (9/10)''\<rparr>"
    by (simp add: test_communication_stability_def try_except_def act_bind_def act_return_def
        L true_div_def fmts del: str_nat.simps)
  from stability_protocol[OF h, of scripted] have "\<exists>r. fst (test_communication_stability scripted ?t) = Inr r"
    by (elim exE conjE) simp
  then show ?thesis using h v by simp
qed

text \<open>
  Claim C7. With a session at hand, the SCPI Compliance test raises nothing and sends the
  six mandatory commands in order, those ending in \<open>?\<close> as queries and the others as writes.
  A query counts as compliant exactly when its reply is not empty once stripped; a write
  counts with no condition on any reply, as soon as the call returns; a command whose call
  faults is passed over in silence and, as a step that is not compliant, does not count.
  The test passes exactly when the count divided by six is at least \<open>8 / 10\<close>; a count of five
  passes.
\<close>

theorem compliance_protocol:
  assumes "instrument t"
  shows "\<exists>es r t'. test_scpi_compliance V t = (Inr r, t')
     \<and> log t' = log t @ es
     \<and> map fst es = [Query ''*IDN?'', Write ''*RST'', Write ''*CLS'', Query ''*ESR?'',
                      Query ''*STB?'', Query ''*OPC?'']
     \<and> test_name r = ''SCPI Compliance''
     \<and> passed r = ((of_nat (length (filter counted es)) :: rat) / 6 \<ge> 8 / 10)
     \<and> (length (filter counted es) = 5 \<longrightarrow> passed r)"
proof -
  from compliance_loop_log[OF assms, of V mandatory_commands 0 0]
  obtain es t' where L: "compliance_loop V mandatory_commands (0, 0) t
        = (Inr (length (filter counted es), length mandatory_commands), t')"
    "log t' = log t @ es"
    "map fst es = map (\<lambda>cmd. if endswith cmd ''?'' then Query cmd else Write cmd) mandatory_commands"
    by auto
  let ?k = "length (filter counted es)"
  let ?rate = "(of_nat ?k :: rat) / of_nat 6"
  let ?r = "\<lparr>test_name = ''SCPI Compliance'', passed = (?rate \<ge> 8 / 10),
             message = ''SCPI compliance: '' @ format_1pct ?rate @ '' (''
                   @ str_nat ?k @ ''/'' @ str_nat 6 @ '')''\<rparr>"
  have six: "length mandatory_commands = 6" by (simp add: mandatory_commands_def)
  have "test_scpi_compliance V t = (Inr ?r, t')"
    using L(1) unfolding six
    by (simp add: test_scpi_compliance_def try_except_def act_bind_def act_return_def
        true_div_def Let_def del: str_nat.simps)
  moreover have "map (\<lambda>cmd. if endswith cmd ''?'' then Query cmd else Write cmd) mandatory_commands
      = [Query ''*IDN?'', Write ''*RST'', Write ''*CLS'', Query ''*ESR?'',
                      Query ''*STB?'', Query ''*OPC?'']"
    by (simp add: mandatory_commands_def endswith_def)
  ultimately show ?thesis using L(2,3)
    by (intro exI[of _ es] exI[of _ ?r] exI[of _ t']) simp
qed

theorem compliance_protocol_witness:
  "instrument (snd (connect scripted (init ''GPIB0::22::INSTR''
       [Inr ''Keysight,34461A'', Inr [], Inr ''0'', Inr ''1''])))
   \<and> fst (test_scpi_compliance scripted (snd (connect scripted (init ''GPIB0::22::INSTR''
       [Inr ''Keysight,34461A'', Inr [], Inr ''0'', Inr ''1'']))))
       = Inr \<lparr>test_name = ''SCPI Compliance'', passed = True,
               message = ''SCPI compliance: 83.3% (5/6)''\<rparr>"
proof -
  let ?t = "snd (connect scripted (init ''GPIB0::22::INSTR''
       [Inr ''Keysight,34461A'', Inr [], Inr ''0'', Inr ''1'']))"
  let ?loop = "compliance_loop scripted mandatory_commands (0, 0) ?t"
  have h: "instrument ?t" by code_simp
  have "fst ?loop = Inr (5, 6)" by code_simp
  then obtain t6 where L: "?loop = (Inr (5, 6), t6)" by (cases ?loop) auto
  have v: "fst (test_scpi_compliance scripted ?t)
       = Inr \<lparr>test_name = ''SCPI Compliance'', passed = True,
               message = ''SCPI compliance: 83.3% (5/6)''\<rparr>"
    by (simp add: test_scpi_compliance_def try_except_def act_bind_def act_return_def
        L true_div_def fmts del: str_nat.simps)
  from compliance_protocol[OF h, of scripted] have "\<exists>r. fst (test_scpi_compliance scripted ?t) = Inr r"
    by (elim exE conjE) simp
  then show ?thesis using h v by simp
qed

text \<open>
  Claim C8. A name that is none of the ten known ones gives the result with that name,
  \<open>passed = False\<close> and the message \<open>Unknown test\<close>, raises nothing and leaves the state as
  it was; the loop emits its three signals for it and goes on with the rest of the queue.
\<close>

theorem unknown_test_reported:
  assumes "name \<notin> set known_tests"
  shows "execute_test V name t
           = (Inr \<lparr>test_name = name, passed = False, message = ''Unknown test''\<rparr>, t)
       \<and> run_loop V n i (name # rest) t
           = run_loop V n (i + 1) rest
               (t\<lparr>signals := signals t @
                  [Test_started name,
                   Test_completed \<lparr>test_name = name, passed = False, message = ''Unknown test''\<rparr>,
                   Progress_updated (progress i n)]\<rparr>)"
  using dispatch_unknown[OF assms, of V]
  by (simp add: execute_test_def guarded_def try_except_def act_return_def act_bind_def emit_def)

theorem unknown_test_reported_witness:
  "''Calibration'' \<notin> set known_tests
   \<and> execute_test (steady ''1'') ''Calibration'' (init ''GPIB0::22::INSTR'' ())
       = (Inr \<lparr>test_name = ''Calibration'', passed = False, message = ''Unknown test''\<rparr>,
          init ''GPIB0::22::INSTR'' ())"
  using unknown_test_reported[of "''Calibration''" "steady ''1''" "init ''GPIB0::22::INSTR'' ()"]
  by (simp add: known_tests_def)

text \<open>
  Claim C9, as amended. Take a run with a queue that is not empty, on an object that
  holds the handle of whatever is open, and an instrument whose two \<^verbatim>\<open>close\<close> calls do not
  fault. Whether the queue is worked through, the connection fails, or a fault reaches the
  \<^verbatim>\<open>except\<close> clause, the run raises nothing and ends, through \<^verbatim>\<open>_cleanup\<close>, with neither a
  session nor a resource manager open. A run that is stopped is not covered: it is ended
  by \<^verbatim>\<open>terminate()\<close> and runs no cleanup.
\<close>

theorem run_releases_link:
  assumes "tests_to_run t \<noteq> []"
    and "session_open False (log t) \<longrightarrow> instrument t"
    and "manager_open False (log t) \<longrightarrow> rm t"
    and "\<forall>d. \<exists>r d'. respond V Close_instrument d = (Inr r, d')"
    and "\<forall>d. \<exists>r d'. respond V Close_rm d = (Inr r, d')"
  shows "fst (run V t) = Inr ()
       \<and> \<not> session_open False (log (snd (run V t)))
       \<and> \<not> manager_open False (log (snd (run V t)))"
proof -
  let ?ev = "\<lambda>e. Test_completed \<lparr>test_name = ''Connection'', passed = False,
                                    message = ''Failed to connect: '' @ e\<rparr>"
  let ?body = "try_except
             (act_bind (connect V) (\<lambda>_ t'.
                run_loop V (length (tests_to_run t')) 0 (tests_to_run t') t'))
             (\<lambda>e. emit (?ev e))"
  have h0: "handles_held t" using assms(2,3) by (simp add: handles_held_def)
  have h1: "handles_held (snd (connect V t))" by (rule connect_held[OF h0])
  obtain r1 t1 where b: "?body t = (r1, t1)" by (cases "?body t")
  have ok: "r1 = Inr () \<and> handles_held t1"
  proof (cases "connect V t")
    case (Pair c tc)
    show ?thesis
    proof (cases c)
      case (Inl e)
      then show ?thesis using b Pair h1 emit_held[of tc "?ev e"]
        by (auto simp: try_except_def act_bind_def emit_def)
    next
      case (Inr u)
      obtain rs t2 where l: "run_loop V (length (tests_to_run tc)) 0 (tests_to_run tc) tc = (Inr (), t2)"
        using run_loop_events[of V "length (tests_to_run tc)" 0 "tests_to_run tc" tc] by blast
      have "handles_held t2"
        using run_loop_held[of tc V "length (tests_to_run tc)" 0 "tests_to_run tc"] h1 Pair l by simp
      then show ?thesis using b Pair Inr l by (auto simp: try_except_def act_bind_def)
    qed
  qed
  obtain t3 where cl: "cleanup V t1 = (Inr (), t3)"
    using cleanup_ok[of V t1] by (cases "cleanup V t1") auto
  have r: "run V t = (Inr (), t3)"
    using assms(1) b ok cl by (simp add: run_def try_finally_def)
  show ?thesis using r cleanup_closes[OF _ assms(4,5), of t1] ok cl by simp
qed

theorem run_releases_link_witness:
  "tests_to_run (add_test ''Status Registers'' (init ''GPIB0::22::INSTR'' ())) \<noteq> []
   \<and> fst (run (steady ''1'') (add_test ''Status Registers'' (init ''GPIB0::22::INSTR'' ()))) = Inr ()
   \<and> \<not> session_open False
         (log (snd (run (steady ''1'') (add_test ''Status Registers'' (init ''GPIB0::22::INSTR'' ())))))
   \<and> \<not> manager_open False
         (log (snd (run (steady ''1'') (add_test ''Status Registers'' (init ''GPIB0::22::INSTR'' ())))))"
  using run_releases_link[of "add_test ''Status Registers'' (init ''GPIB0::22::INSTR'' ())" "steady ''1''"]
  by (simp add: double_defs)

text \<open>
  Claim C9 as the specification words it fails for a run that is stopped: ended after the
  first of two queued tests, the worker has emitted one result and has made no \<^verbatim>\<open>close\<close>
  call, so the session it opened is still open.
\<close>

theorem stopped_run_leaves_session_open:
  "session_open False
     (log (snd (terminated_run (steady ''1'') 1
        (add_test ''Status Registers'' (add_test ''Status Registers''
           (init ''GPIB0::22::INSTR'' ()))))))
   \<and> completed (signals (snd (terminated_run (steady ''1'') 1
        (add_test ''Status Registers'' (add_test ''Status Registers''
           (init ''GPIB0::22::INSTR'' ()))))))
       = [\<lparr>test_name = ''Status Registers'', passed = True, message = ''STB: 1, ESR: 1''\<rparr>]"
  by (simp add: terminated_run_def connect_def execute_test_def guarded_def dispatch_def
      test_status_registers_def progress_def act_defs double_defs strip_def isspace_def)

text \<open>
  Claim C10. A run started with an empty queue returns at once: no call is made on the
  VISA library, no signal is emitted, no cleanup runs, and the object is as it was.
\<close>

theorem run_empty_queue: "tests_to_run t = [] \<Longrightarrow> run V t = (Inr (), t)"
  by (simp add: run_def act_return_def)

theorem run_empty_queue_witness: "tests_to_run (init ''GPIB0::22::INSTR'' ()) = []
   \<and> run (steady ''1'') (init ''GPIB0::22::INSTR'' ()) = (Inr (), init ''GPIB0::22::INSTR'' ())"
  using run_empty_queue[of "init ''GPIB0::22::INSTR'' ()" "steady ''1''"] by (simp add: init_def)

end
